theory Spec2Isabelle
  imports Complex_Main "HOL-Library.Sublist"
begin

section \<open>The embeddings base class of chonkie\<close>

text \<open>
  A shallow embedding of \<^verbatim>\<open>src/chonkie/embeddings/base.py\<close>: the class
  \<^verbatim>\<open>BaseEmbeddings\<close> with its constructor, the default \<^verbatim>\<open>embed_batch\<close>,
  the default \<^verbatim>\<open>similarity\<close>, the default \<^verbatim>\<open>is_available\<close> and the
  callable dispatch \<^verbatim>\<open>__call__\<close>.
\<close>

subsection \<open>Python values, exceptions and the world\<close>

text \<open>
  Python is dynamically typed: the argument of \<^verbatim>\<open>__call__\<close> is any object, and the
  elements of a list are any objects. The values below are the ones the dispatch can tell
  apart (\<^verbatim>\<open>str\<close>, \<^verbatim>\<open>list\<close>) together with some that are neither. \<open>PArray\<close> is a
  one-dimensional \<^verbatim>\<open>numpy.ndarray\<close> of floats; an entry is the real number the float
  stands for.
\<close>

datatype pyval =
    PNone
  | PBool bool
  | PInt int
  | PStr string
  | PList "pyval list"
  | PTuple "pyval list"
  | PArray "real list"

text \<open>The exceptions the code raises, and \<open>ProviderError\<close> for whatever a concrete \<^verbatim>\<open>embed\<close> raises.\<close>

datatype error =
    ImportError string
  | ModuleNotFoundError string
  | NameError string
  | AttributeError string
  | ValueError string
  | NotImplementedError
  | ProviderError string

text \<open>
  The operations outside the class that the code calls: the lookup
  \<^verbatim>\<open>importlib.util.find_spec\<close>, the statement \<^verbatim>\<open>import numpy as np\<close> and the abstract
  method \<^verbatim>\<open>embed\<close>. Each call is recorded, in order, in the world.
\<close>

datatype event =
    FindSpec string
  | ImportModule string
  | EmbedCall pyval

datatype module_spec = ModuleSpec string

text \<open>
  A floating-point scalar of numpy: a finite value (the real number it stands for), an
  infinity or a NaN. The sign of a zero is not modelled.
\<close>

datatype npfloat = Finite real | PosInf | NegInf | NaN

text \<open>
  The floating-point arithmetic under numpy is a parameter. \<open>round64 x\<close> and \<open>round32 x\<close>
  are the \<^verbatim>\<open>float64\<close> and the \<^verbatim>\<open>float32\<close> that the exact non-zero result \<open>x\<close> of an
  operation is rounded to (an infinity on overflow, zero on underflow). \<open>dot_sum ps\<close> is
  what the inner-product routine returns for two arrays whose entries have the exact
  products \<open>ps\<close>: the order of the additions and the roundings in between are the
  routine's own. The arrays are \<^verbatim>\<open>float64\<close> arrays; for arrays of a narrower float type
  the operations round to that type, which is a platform whose \<open>round64\<close> is that
  rounding.
\<close>

record platform =
  round64 :: "real \<Rightarrow> npfloat"
  round32 :: "real \<Rightarrow> npfloat"
  dot_sum :: "real list \<Rightarrow> npfloat"

text \<open>
  What \<^verbatim>\<open>import numpy\<close> can bind: numpy itself, running on some platform, or another
  module that goes by the name (it has none of numpy's attributes).
\<close>

datatype pymodule = NumpyModule platform | OtherModule string

text \<open>
  The world: what the import system can find (\<open>finder name\<close> is what
  \<^verbatim>\<open>find_spec(name)\<close> returns, \<open>None\<close> when no module of the name is found), what
  executing \<^verbatim>\<open>import name\<close> does (\<open>importer name\<close>: the module, or the exception the
  import raises; finding a module does not make its import succeed), the module global
  \<^verbatim>\<open>np\<close> of \<^verbatim>\<open>base.py\<close> (unbound at first: the import under \<^verbatim>\<open>TYPE_CHECKING\<close> does not
  run), and the calls made so far.
\<close>

record world =
  finder :: "string \<Rightarrow> module_spec option"
  importer :: "string \<Rightarrow> error + pymodule"
  np_global :: "pymodule option"
  calls :: "event list"

text \<open>
  A provider: a concrete subclass. It supplies the abstract method \<^verbatim>\<open>embed\<close>, a
  parameter of the model: a function of its argument that returns a value or raises (the
  contract's table asks \<^verbatim>\<open>embed\<close> to be deterministic for a fixed provider). It may
  override \<^verbatim>\<open>is_available\<close> (the docstring invites it); \<open>None\<close> stands for a subclass
  that inherits the method of the base class.
\<close>

record provider =
  embed :: "pyval \<Rightarrow> error + pyval"
  is_available_override :: "(world \<Rightarrow> (error + bool) \<times> world) option"

subsection \<open>Construction: the availability check and the lazy import\<close>

text \<open>\<^verbatim>\<open>importutil.find_spec(name)\<close>\<close>

definition importutil_find_spec :: "string \<Rightarrow> world \<Rightarrow> module_spec option \<times> world" where
  "importutil_find_spec name w = (finder w name, w\<lparr>calls := calls w @ [FindSpec name]\<rparr>)"

text \<open>\<^verbatim>\<open>is_available\<close>: \<^verbatim>\<open>return importutil.find_spec("numpy") is not None\<close>\<close>

definition is_available :: "world \<Rightarrow> bool \<times> world" where
  "is_available w =
     (case importutil_find_spec ''numpy'' w of (r, w') \<Rightarrow> (r \<noteq> None, w'))"

text \<open>The call \<^verbatim>\<open>self.is_available()\<close>: the override when the subclass has one.\<close>

definition self_is_available :: "provider \<Rightarrow> world \<Rightarrow> (error + bool) \<times> world" where
  "self_is_available p w =
     (case is_available_override p of
        None \<Rightarrow> (case is_available w of (b, w') \<Rightarrow> (Inr b, w'))
      | Some f \<Rightarrow> f w)"

text \<open>
  \<^verbatim>\<open>global np; import numpy as np\<close>: the import runs; when it returns a module the global
  is bound to it, and when it raises the exception goes on (there is no handler).
\<close>

definition import_numpy_as_np :: "world \<Rightarrow> (error + unit) \<times> world" where
  "import_numpy_as_np w =
     (case importer w ''numpy'' of
        Inl e \<Rightarrow> (Inl e, w\<lparr>calls := calls w @ [ImportModule ''numpy'']\<rparr>)
      | Inr m \<Rightarrow> (Inr (),
                 w\<lparr>np_global := Some m, calls := calls w @ [ImportModule ''numpy'']\<rparr>))"

definition import_error_message :: string where
  "import_error_message =
     ''numpy is not available. Please install it via `pip install chonkie[semantic]`''"

text \<open>\<^verbatim>\<open>_import_dependencies\<close>\<close>

definition import_dependencies :: "provider \<Rightarrow> world \<Rightarrow> (error + unit) \<times> world" where
  "import_dependencies p w =
     (case self_is_available p w of
        (Inl e, w') \<Rightarrow> (Inl e, w')
      | (Inr True, w') \<Rightarrow> import_numpy_as_np w'
      | (Inr False, w') \<Rightarrow> (Inl (ImportError import_error_message), w'))"

text \<open>\<^verbatim>\<open>__init__\<close>\<close>

definition init :: "provider \<Rightarrow> world \<Rightarrow> (error + unit) \<times> world" where
  "init p w = import_dependencies p w"

text \<open>
  Instantiating a provider class: \<^verbatim>\<open>__init__\<close> runs, and the expression yields the
  instance only when \<^verbatim>\<open>__init__\<close> returns.
\<close>

definition new_provider :: "provider \<Rightarrow> world \<Rightarrow> (error + provider) \<times> world" where
  "new_provider p w =
     (case init p w of
        (Inl e, w') \<Rightarrow> (Inl e, w')
      | (Inr u, w') \<Rightarrow> (Inr p, w'))"

subsection \<open>Embedding: single, batch and callable dispatch\<close>

text \<open>The call \<^verbatim>\<open>self.embed(text)\<close>.\<close>

definition self_embed :: "provider \<Rightarrow> pyval \<Rightarrow> world \<Rightarrow> (error + pyval) \<times> world" where
  "self_embed p text w = (embed p text, w\<lparr>calls := calls w @ [EmbedCall text]\<rparr>)"

text \<open>
  \<^verbatim>\<open>[self.embed(text) for text in texts]\<close>: the comprehension walks the list from the
  left and appends each result; an exception leaves the loop and the list built so far is
  dropped.
\<close>

fun comprehension :: "provider \<Rightarrow> pyval list \<Rightarrow> pyval list \<Rightarrow> world \<Rightarrow> (error + pyval) \<times> world" where
  "comprehension p acc [] w = (Inr (PList acc), w)"
| "comprehension p acc (text # texts) w =
     (case self_embed p text w of
        (Inl e, w') \<Rightarrow> (Inl e, w')
      | (Inr v, w') \<Rightarrow> comprehension p (acc @ [v]) texts w')"

text \<open>\<^verbatim>\<open>embed_batch\<close>, on the elements of the list it is given.\<close>

definition embed_batch :: "provider \<Rightarrow> pyval list \<Rightarrow> world \<Rightarrow> (error + pyval) \<times> world" where
  "embed_batch p texts w = comprehension p [] texts w"

fun isinstance_str :: "pyval \<Rightarrow> bool" where
  "isinstance_str (PStr s) = True"
| "isinstance_str v = False"

fun isinstance_list :: "pyval \<Rightarrow> bool" where
  "isinstance_list (PList xs) = True"
| "isinstance_list v = False"

fun list_items :: "pyval \<Rightarrow> pyval list" where
  "list_items (PList xs) = xs"
| "list_items v = []"

definition invalid_input :: error where
  "invalid_input = ValueError ''Input must be a string or list of strings''"

text \<open>\<^verbatim>\<open>__call__\<close>\<close>

definition call :: "provider \<Rightarrow> pyval \<Rightarrow> world \<Rightarrow> (error + pyval) \<times> world" where
  "call p text w =
     (if isinstance_str text then self_embed p text w
      else if isinstance_list text then embed_batch p (list_items text) w
      else (Inl invalid_input, w))"

subsection \<open>The numeric array library\<close>

text \<open>
  The operations of numpy that \<^verbatim>\<open>similarity\<close> calls, on one-dimensional \<^verbatim>\<open>float64\<close>
  arrays with finite entries, as numpy documents them, over the platform's arithmetic.
  An operation on numpy scalars does not raise: a division by zero, an overflow or an
  invalid operation returns an infinity or a NaN (with a warning).
\<close>

text \<open>
  The float an exact result is returned as: an exact zero is zero, anything else is
  rounded by the platform.
\<close>

definition fl64 :: "platform \<Rightarrow> real \<Rightarrow> npfloat" where
  "fl64 fp x = (if x = 0 then Finite 0 else round64 fp x)"

definition fl32 :: "platform \<Rightarrow> real \<Rightarrow> npfloat" where
  "fl32 fp x = (if x = 0 then Finite 0 else round32 fp x)"

text \<open>
  The inner product of two arrays, from the exact products of their entries: zero when
  every product is zero, and the platform's accumulation otherwise.
\<close>

definition blas_dot :: "platform \<Rightarrow> real list \<Rightarrow> npfloat" where
  "blas_dot fp ps = (if list_all (\<lambda>x. x = 0) ps then Finite 0 else dot_sum fp ps)"

text \<open>
  \<^verbatim>\<open>np.dot(a, b)\<close> on 1-D arrays: the inner product, and \<^verbatim>\<open>ValueError\<close> (shapes not
  aligned) when the lengths differ.
\<close>

definition np_dot :: "platform \<Rightarrow> real list \<Rightarrow> real list \<Rightarrow> error + npfloat" where
  "np_dot fp a b =
     (if length a \<noteq> length b then Inl (ValueError ''shapes not aligned'')
      else Inr (blas_dot fp (map2 (*) a b)))"

text \<open>\<^verbatim>\<open>a.T\<close>: the transpose of a 1-D array is the array.\<close>

definition np_T :: "real list \<Rightarrow> real list" where
  "np_T a = a"

text \<open>\<^verbatim>\<open>np.sqrt\<close> on a scalar.\<close>

fun np_sqrt :: "platform \<Rightarrow> npfloat \<Rightarrow> npfloat" where
  "np_sqrt fp (Finite x) = (if x < 0 then NaN else fl64 fp (sqrt x))"
| "np_sqrt fp PosInf = PosInf"
| "np_sqrt fp NegInf = NaN"
| "np_sqrt fp NaN = NaN"

text \<open>
  \<^verbatim>\<open>np.linalg.norm(a)\<close> on a real 1-D array: numpy computes \<^verbatim>\<open>sqrt(a.dot(a))\<close>.
\<close>

definition np_linalg_norm :: "platform \<Rightarrow> real list \<Rightarrow> npfloat" where
  "np_linalg_norm fp a = np_sqrt fp (blas_dot fp (map (\<lambda>x. x * x) a))"

text \<open>The sign of a scalar that is not a NaN, as a number.\<close>

fun sign_of :: "npfloat \<Rightarrow> real" where
  "sign_of (Finite x) = sgn x"
| "sign_of PosInf = 1"
| "sign_of NegInf = - 1"
| "sign_of NaN = 0"

text \<open>\<^verbatim>\<open>x * y\<close> on \<^verbatim>\<open>float64\<close> scalars.\<close>

fun np_multiply :: "platform \<Rightarrow> npfloat \<Rightarrow> npfloat \<Rightarrow> npfloat" where
  "np_multiply fp NaN y = NaN"
| "np_multiply fp x NaN = NaN"
| "np_multiply fp (Finite x) (Finite y) = fl64 fp (x * y)"
| "np_multiply fp x y =
     (if sign_of x * sign_of y = 0 then NaN
      else if 0 < sign_of x * sign_of y then PosInf else NegInf)"

text \<open>
  \<^verbatim>\<open>x / y\<close> on \<^verbatim>\<open>float64\<close> scalars. A zero divisor counts as positive: the divisor in
  \<^verbatim>\<open>similarity\<close> is a product of norms.
\<close>

fun np_true_divide :: "platform \<Rightarrow> npfloat \<Rightarrow> npfloat \<Rightarrow> npfloat" where
  "np_true_divide fp NaN y = NaN"
| "np_true_divide fp x NaN = NaN"
| "np_true_divide fp (Finite x) (Finite y) =
     (if y = 0 then (if x = 0 then NaN else if 0 < x then PosInf else NegInf)
      else fl64 fp (x / y))"
| "np_true_divide fp (Finite x) y = Finite 0"
| "np_true_divide fp x (Finite y) =
     (if 0 < sign_of x * (if y < 0 then - 1 else 1) then PosInf else NegInf)"
| "np_true_divide fp x y = NaN"

text \<open>\<^verbatim>\<open>np.float32(x)\<close> on a \<^verbatim>\<open>float64\<close> scalar: rounds a finite value, keeps the others.\<close>

fun np_float32 :: "platform \<Rightarrow> npfloat \<Rightarrow> npfloat" where
  "np_float32 fp (Finite x) = fl32 fp x"
| "np_float32 fp x = x"

text \<open>\<^verbatim>\<open>x == y\<close> on floating-point scalars: a NaN is equal to nothing, itself included.\<close>

definition np_eq :: "npfloat \<Rightarrow> npfloat \<Rightarrow> bool" where
  "np_eq x y = (x \<noteq> NaN \<and> y \<noteq> NaN \<and> x = y)"

subsection \<open>Similarity\<close>

text \<open>
  \<^verbatim>\<open>np.float32(np.dot(u, v.T) / (np.linalg.norm(u) * np.linalg.norm(v)))\<close>. The name
  \<^verbatim>\<open>np\<close> is the module global, looked up first: where it is not bound the call raises
  \<^verbatim>\<open>NameError\<close>, and where it is bound to a module that is not numpy the lookup of
  \<^verbatim>\<open>float32\<close> raises \<^verbatim>\<open>AttributeError\<close>.
\<close>

definition similarity :: "world \<Rightarrow> real list \<Rightarrow> real list \<Rightarrow> error + npfloat" where
  "similarity w u v =
     (case np_global w of
        None \<Rightarrow> Inl (NameError ''np'')
      | Some (OtherModule name) \<Rightarrow> Inl (AttributeError ''float32'')
      | Some (NumpyModule fp) \<Rightarrow>
          (case np_dot fp u (np_T v) of
             Inl e \<Rightarrow> Inl e
           | Inr d \<Rightarrow>
               Inr (np_float32 fp
                     (np_true_divide fp d
                        (np_multiply fp (np_linalg_norm fp u) (np_linalg_norm fp v))))))"

subsection \<open>IEEE 754 arithmetic\<close>

text \<open>Rounding a real to the nearest integer, a tie to the even one.\<close>

definition round_half_even :: "real \<Rightarrow> int" where
  "round_half_even t =
     (let f = \<lfloor>t\<rfloor>; d = t - of_int f
      in if d < 1 / 2 then f else if 1 / 2 < d then f + 1 else if even f then f else f + 1)"

text \<open>
  Rounding to nearest, ties to even, in a binary format with precision \<open>p\<close> and exponents
  from \<open>emin\<close> to \<open>emax\<close>: the result is a multiple of the spacing at the exponent of \<open>x\<close>
  (at \<open>emin\<close> for a subnormal), and an infinity when it is beyond the largest float.
\<close>

definition round_ieee :: "nat \<Rightarrow> int \<Rightarrow> int \<Rightarrow> real \<Rightarrow> npfloat" where
  "round_ieee p emin emax x =
     (if x = 0 then Finite 0
      else let e = max \<lfloor>log 2 \<bar>x\<bar>\<rfloor> emin;
               q = 2 powr (of_int e - (real p - 1));
               y = of_int (round_half_even (x / q)) * q
           in if 2 powr (of_int emax + 1) \<le> \<bar>y\<bar> then (if 0 < x then PosInf else NegInf)
              else Finite y)"

definition binary64_round :: "real \<Rightarrow> npfloat" where
  "binary64_round = round_ieee 53 (- 1022) 1023"

definition binary32_round :: "real \<Rightarrow> npfloat" where
  "binary32_round = round_ieee 24 (- 126) 127"

text \<open>Addition of \<^verbatim>\<open>float64\<close> scalars.\<close>

fun binary64_add :: "npfloat \<Rightarrow> npfloat \<Rightarrow> npfloat" where
  "binary64_add NaN y = NaN"
| "binary64_add x NaN = NaN"
| "binary64_add (Finite x) (Finite y) = binary64_round (x + y)"
| "binary64_add PosInf NegInf = NaN"
| "binary64_add NegInf PosInf = NaN"
| "binary64_add (Finite x) y = y"
| "binary64_add x y = x"

text \<open>
  An inner product that rounds each product and adds the products from the left, rounding
  each sum.
\<close>

definition sequential_dot :: "real list \<Rightarrow> npfloat" where
  "sequential_dot ps = foldl (\<lambda>acc x. binary64_add acc (binary64_round x)) (Finite 0) ps"

text \<open>The usual platform: IEEE 754 \<^verbatim>\<open>binary64\<close> and \<^verbatim>\<open>binary32\<close>.\<close>

definition binary64 :: platform where
  "binary64 = \<lparr>round64 = binary64_round, round32 = binary32_round, dot_sum = sequential_dot\<rparr>"

subsection \<open>The specification's notions\<close>

text \<open>
  The cosine similarity in the specification's words: the dot product of two vectors
  divided by the product of their Euclidean norms.
\<close>

definition dot_product :: "real list \<Rightarrow> real list \<Rightarrow> real" where
  "dot_product u v = (\<Sum>i<length u. u ! i * v ! i)"

definition euclidean_norm :: "real list \<Rightarrow> real" where
  "euclidean_norm u = sqrt (\<Sum>i<length u. (u ! i) ^ 2)"

definition cosine_similarity :: "real list \<Rightarrow> real list \<Rightarrow> real" where
  "cosine_similarity u v = dot_product u v / (euclidean_norm u * euclidean_norm v)"

text \<open>
  No operation of the computation on \<open>u\<close> and \<open>v\<close> rounds: the three inner products
  return the exact sums, and the square roots, the product of the norms, the quotient and
  the cast return their exact results.
\<close>

definition no_rounding :: "platform \<Rightarrow> real list \<Rightarrow> real list \<Rightarrow> bool" where
  "no_rounding fp u v =
     (blas_dot fp (map2 (*) u v) = Finite (sum_list (map2 (*) u v))
      \<and> blas_dot fp (map (\<lambda>x. x * x) u) = Finite (\<Sum>x\<leftarrow>u. x * x)
      \<and> blas_dot fp (map (\<lambda>x. x * x) v) = Finite (\<Sum>x\<leftarrow>v. x * x)
      \<and> fl64 fp (euclidean_norm u) = Finite (euclidean_norm u)
      \<and> fl64 fp (euclidean_norm v) = Finite (euclidean_norm v)
      \<and> fl64 fp (euclidean_norm u * euclidean_norm v)
          = Finite (euclidean_norm u * euclidean_norm v)
      \<and> fl64 fp (cosine_similarity u v) = Finite (cosine_similarity u v)
      \<and> fl32 fp (cosine_similarity u v) = Finite (cosine_similarity u v))"

text \<open>
  A rounding \<open>r\<close> has relative error at most \<open>e\<close> at \<open>x\<close>: it returns a finite value within
  \<open>e \<bar>x\<bar>\<close> of \<open>x\<close>.
\<close>

fun close_to :: "real \<Rightarrow> real \<Rightarrow> npfloat \<Rightarrow> bool" where
  "close_to e x (Finite y) = (\<bar>y - x\<bar> \<le> e * \<bar>x\<bar>)"
| "close_to e x r = False"

text \<open>
  The standard model of floating-point arithmetic, on a range: between \<open>lo\<close> and \<open>hi\<close> the
  \<^verbatim>\<open>float64\<close> rounding has relative error at most \<open>e\<close>, and so has the \<^verbatim>\<open>float32\<close>
  rounding between 1/2 and 2.
\<close>

definition standard_model :: "platform \<Rightarrow> real \<Rightarrow> real \<Rightarrow> real \<Rightarrow> bool" where
  "standard_model fp e lo hi =
     ((\<forall>x. lo \<le> x \<and> x \<le> hi \<longrightarrow> close_to e x (round64 fp x))
      \<and> (\<forall>x. 1 / 2 \<le> x \<and> x \<le> 2 \<longrightarrow> close_to e x (round32 fp x)))"

text \<open>
  The specification's reading of the dispatch: the argument is a single string, or a
  sequence (a list or a tuple) all of whose elements are strings.
\<close>

fun is_single_string :: "pyval \<Rightarrow> bool" where
  "is_single_string (PStr s) = True"
| "is_single_string v = False"

fun is_sequence_of_strings :: "pyval \<Rightarrow> bool" where
  "is_sequence_of_strings (PList xs) = list_all is_single_string xs"
| "is_sequence_of_strings (PTuple xs) = list_all is_single_string xs"
| "is_sequence_of_strings v = False"

subsection \<open>Sample worlds and providers\<close>

text \<open>
  A world where numpy is installed and imports, on the usual platform; the same world
  after a provider has been constructed in it; a world where numpy is found and its
  import raises (a broken installation); and a world where nothing is installed.
\<close>

definition numpy_world :: world where
  "numpy_world =
     \<lparr>finder = (\<lambda>name. if name = ''numpy'' then Some (ModuleSpec ''numpy'') else None),
      importer = (\<lambda>name. if name = ''numpy'' then Inr (NumpyModule binary64)
                          else Inl (ModuleNotFoundError name)),
      np_global = None, calls = []\<rparr>"

definition ready_world :: world where
  "ready_world =
     numpy_world\<lparr>np_global := Some (NumpyModule binary64),
                 calls := [FindSpec ''numpy'', ImportModule ''numpy'']\<rparr>"


definition bare_world :: world where
  "bare_world =
     \<lparr>finder = (\<lambda>name. None), importer = (\<lambda>name. Inl (ModuleNotFoundError name)),
      np_global = None, calls = []\<rparr>"

text \<open>A large array entry, about \<open>4.1e180\<close>: a \<^verbatim>\<open>float64\<close> whose square is not one.\<close>

definition huge :: real where
  "huge = 2 ^ 600"

text \<open>A provider that embeds a string as its length and rejects everything else.\<close>

definition length_provider :: provider where
  "length_provider =
     \<lparr>embed = (\<lambda>text. case text of
                         PStr s \<Rightarrow> Inr (PArray [real (length s)])
                       | _ \<Rightarrow> Inl (ProviderError ''not a string'')),
      is_available_override = None\<rparr>"

text \<open>A provider that embeds whatever it is given as the same vector.\<close>

definition constant_provider :: provider where
  "constant_provider = \<lparr>embed = (\<lambda>text. Inr (PArray [1])), is_available_override = None\<rparr>"

section \<open>Properties\<close>

subsection \<open>Auxiliary facts about the batch loop\<close>

lemma comprehension_ok:
  "(\<forall>t \<in> set ts. \<exists>v. embed p t = Inr v) \<Longrightarrow>
   fst (comprehension p acc ts w) = Inr (PList (acc @ map (\<lambda>t. projr (embed p t)) ts))"
  by (induction ts arbitrary: acc w) (auto simp: self_embed_def)

lemma comprehension_fails:
  "\<exists>t \<in> set ts. \<exists>e. embed p t = Inl e \<Longrightarrow> \<exists>e. fst (comprehension p acc ts w) = Inl e"
proof (induction ts arbitrary: acc w)
  case Nil
  then show ?case by simp
next
  case (Cons t ts)
  show ?case
  proof (cases "embed p t")
    case (Inl e)
    then show ?thesis by (simp add: self_embed_def)
  next
    case (Inr v)
    with Cons.prems have "\<exists>t \<in> set ts. \<exists>e. embed p t = Inl e" by auto
    from Cons.IH [OF this] Inr show ?thesis by (simp add: self_embed_def)
  qed
qed

lemma comprehension_calls:
  "\<exists>evs. calls (snd (comprehension p acc ts w)) = calls w @ evs \<and> (ts \<noteq> [] \<longrightarrow> evs \<noteq> [])"
proof (induction ts arbitrary: acc w)
  case Nil
  then show ?case by simp
next
  case (Cons t ts)
  show ?case
  proof (cases "embed p t")
    case (Inl e)
    then show ?thesis by (simp add: self_embed_def)
  next
    case (Inr v)
    let ?w = "w\<lparr>calls := calls w @ [EmbedCall t]\<rparr>"
    from Cons.IH [of "acc @ [v]" ?w] obtain evs where
      "calls (snd (comprehension p (acc @ [v]) ts ?w)) = calls ?w @ evs" by blast
    with Inr show ?thesis by (simp add: self_embed_def)
  qed
qed

lemma comprehension_first_call:
  "\<exists>evs. calls (snd (comprehension p acc (t # ts) w)) = calls w @ EmbedCall t # evs"
proof (cases "embed p t")
  case (Inl e)
  then show ?thesis by (simp add: self_embed_def)
next
  case (Inr v)
  let ?w = "w\<lparr>calls := calls w @ [EmbedCall t]\<rparr>"
  from comprehension_calls [of p "acc @ [v]" ts ?w] obtain evs where
    "calls (snd (comprehension p (acc @ [v]) ts ?w)) = calls ?w @ evs" by blast
  with Inr show ?thesis by (simp add: self_embed_def)
qed

lemma world_calls_neq: "w\<lparr>calls := calls w @ [x]\<rparr> \<noteq> w"
proof
  assume "w\<lparr>calls := calls w @ [x]\<rparr> = w"
  then have "calls (w\<lparr>calls := calls w @ [x]\<rparr>) = calls w" by simp
  then show False by simp
qed

lemma comprehension_world_neq: "comprehension p acc (t # ts) w \<noteq> (r, w)"
proof
  assume a: "comprehension p acc (t # ts) w = (r, w)"
  from comprehension_first_call [of p acc t ts w] obtain evs where
    "calls (snd (comprehension p acc (t # ts) w)) = calls w @ EmbedCall t # evs" by blast
  with a show False by simp
qed

lemma embed_batch_not_dispatch_error: "embed_batch p xs w \<noteq> (Inl e, w)"
proof (cases xs)
  case Nil
  then show ?thesis by (simp add: embed_batch_def)
next
  case (Cons t ts)
  then show ?thesis
    unfolding embed_batch_def by (simp only: comprehension_world_neq not_False_eq_True)
qed

subsection \<open>Batch embedding\<close>

text \<open>
  Claim C1. For every provider and every list of texts \<open>ts\<close>: when \<^verbatim>\<open>embed\<close> returns on
  every text, the default \<^verbatim>\<open>embed_batch\<close> returns a list of exactly \<open>length ts\<close>
  values whose \<open>i\<close>-th entry is what \<^verbatim>\<open>embed\<close> returns on the \<open>i\<close>-th text (same order,
  one entry per input, repeated texts included); when \<^verbatim>\<open>embed\<close> raises on some text, the
  whole call raises and returns no list.
\<close>

theorem embed_batch_correct:
  "((\<forall>t \<in> set ts. \<exists>v. embed p t = Inr v) \<longrightarrow>
      (\<exists>vs. fst (embed_batch p ts w) = Inr (PList vs) \<and> length vs = length ts
         \<and> (\<forall>i < length ts. embed p (ts ! i) = Inr (vs ! i))))
   \<and> ((\<exists>t \<in> set ts. \<exists>e. embed p t = Inl e) \<longrightarrow> (\<exists>e. fst (embed_batch p ts w) = Inl e))"
proof (intro conjI impI)
  assume ok: "\<forall>t \<in> set ts. \<exists>v. embed p t = Inr v"
  let ?vs = "map (\<lambda>t. projr (embed p t)) ts"
  have "fst (embed_batch p ts w) = Inr (PList ?vs)"
    using comprehension_ok [OF ok, of "[]" w] by (simp add: embed_batch_def)
  moreover have "\<forall>i < length ts. embed p (ts ! i) = Inr (?vs ! i)"
  proof (intro allI impI)
    fix i assume "i < length ts"
    then have "ts ! i \<in> set ts" by simp
    with ok obtain v where "embed p (ts ! i) = Inr v" by blast
    with \<open>i < length ts\<close> show "embed p (ts ! i) = Inr (?vs ! i)" by simp
  qed
  ultimately show "\<exists>vs. fst (embed_batch p ts w) = Inr (PList vs) \<and> length vs = length ts
         \<and> (\<forall>i < length ts. embed p (ts ! i) = Inr (vs ! i))"
    by (intro exI [of _ ?vs]) simp
next
  assume "\<exists>t \<in> set ts. \<exists>e. embed p t = Inl e"
  then show "\<exists>e. fst (embed_batch p ts w) = Inl e"
    unfolding embed_batch_def by (rule comprehension_fails)
qed

theorem embed_batch_correct_witness:
  "fst (embed_batch length_provider [PStr ''a'', PStr ''bb'', PStr ''a''] bare_world)
     = Inr (PList [PArray [1], PArray [2], PArray [1]])
   \<and> (\<exists>e. fst (embed_batch length_provider [PStr ''a'', PInt 7, PStr ''c''] bare_world) = Inl e)"
proof
  let ?ts = "[PStr ''a'', PStr ''bb'', PStr ''a'']"
  have ok: "\<forall>t \<in> set ?ts. \<exists>v. embed length_provider t = Inr v"
    by (simp add: length_provider_def)
  from embed_batch_correct [of ?ts length_provider bare_world] ok
  obtain vs where r: "fst (embed_batch length_provider ?ts bare_world) = Inr (PList vs)"
    and l: "length vs = length ?ts"
    and n: "\<forall>i < length ?ts. embed length_provider (?ts ! i) = Inr (vs ! i)"
    by blast
  from n [rule_format, of 0] n [rule_format, of 1] n [rule_format, of 2]
  have "vs ! 0 = PArray [1]" and "vs ! 1 = PArray [2]" and "vs ! 2 = PArray [1]"
    by (simp_all add: length_provider_def)
  with l have "vs = [PArray [1], PArray [2], PArray [1]]"
    by (auto simp: length_Suc_conv numeral_2_eq_2)
  with r show "fst (embed_batch length_provider ?ts bare_world)
     = Inr (PList [PArray [1], PArray [2], PArray [1]])" by simp
next
  let ?ts = "[PStr ''a'', PInt 7, PStr ''c'']"
  have bad: "\<exists>t \<in> set ?ts. \<exists>e. embed length_provider t = Inl e"
    by (simp add: length_provider_def)
  from embed_batch_correct [of ?ts length_provider bare_world] bad
  show "\<exists>e. fst (embed_batch length_provider ?ts bare_world) = Inl e" by blast
qed

text \<open>
  Claim C9. On the empty list the default \<^verbatim>\<open>embed_batch\<close> returns the empty list and
  makes no call at all (the world is unchanged, so \<^verbatim>\<open>embed\<close> was not called); calling
  the instance with the empty list returns the empty list as well, and does not raise.
\<close>

theorem embed_batch_empty:
  "embed_batch p [] w = (Inr (PList []), w)
   \<and> call p (PList []) w = (Inr (PList []), w)"
  by (simp add: call_def embed_batch_def)

subsection \<open>Callable dispatch\<close>

text \<open>
  Claim C2, as stated, fails: it says the dispatch raises the invalid-input error exactly
  when the argument is neither a single string nor a sequence of strings. The list
  \<^verbatim>\<open>[7]\<close> is neither, and calling a provider with it raises nothing: the list goes to
  \<^verbatim>\<open>embed_batch\<close>, which hands \<^verbatim>\<open>7\<close> to \<^verbatim>\<open>embed\<close>.
\<close>

theorem call_invalid_input_counterexample:
  "\<not> is_single_string (PList [PInt 7])
   \<and> \<not> is_sequence_of_strings (PList [PInt 7])
   \<and> call constant_provider (PList [PInt 7]) bare_world
       = (Inr (PList [PArray [1]]), bare_world\<lparr>calls := [EmbedCall (PInt 7)]\<rparr>)"
  by (simp add: call_def embed_batch_def self_embed_def constant_provider_def bare_world_def)

text \<open>
  Claim C2, amended. The dispatch looks at the type of the argument only. It raises the
  invalid-input error itself (the error comes back and no call has been made: the world
  is unchanged) exactly when the argument is neither a \<^verbatim>\<open>str\<close> nor a \<^verbatim>\<open>list\<close>; a
  \<^verbatim>\<open>str\<close> goes to \<^verbatim>\<open>embed\<close> and a \<^verbatim>\<open>list\<close>, whatever its elements, to
  \<^verbatim>\<open>embed_batch\<close>.
\<close>

theorem call_invalid_input:
  "(call p arg w = (Inl invalid_input, w)) = (\<not> isinstance_str arg \<and> \<not> isinstance_list arg)
   \<and> call p (PStr s) w = self_embed p (PStr s) w
   \<and> call p (PList xs) w = embed_batch p xs w"
proof (intro conjI)
  show "(call p arg w = (Inl invalid_input, w)) = (\<not> isinstance_str arg \<and> \<not> isinstance_list arg)"
  proof (cases arg)
    case (PStr s)
    then show ?thesis by (simp add: call_def self_embed_def world_calls_neq)
  next
    case (PList xs)
    then show ?thesis by (simp add: call_def embed_batch_not_dispatch_error)
  qed (simp_all add: call_def)
qed (simp_all add: call_def)

text \<open>
  Claim C3. Calling the instance with a single string \<open>t\<close> is calling \<^verbatim>\<open>embed(t)\<close>: the
  same result (and the same effect); calling it with a list \<open>ts\<close> is calling
  \<^verbatim>\<open>embed_batch(ts)\<close>.
\<close>

theorem call_routes:
  "call p (PStr t) w = self_embed p (PStr t) w
   \<and> fst (call p (PStr t) w) = embed p (PStr t)
   \<and> call p (PList ts) w = embed_batch p ts w"
  by (simp add: call_def self_embed_def)

text \<open>
  Claim C10. The dispatch inspects the outer type only: every list, whatever its elements,
  goes to \<^verbatim>\<open>embed_batch\<close>; the dispatch never answers a list with its own invalid-input
  error (an error with no call made); the first element of a non-empty list reaches
  \<^verbatim>\<open>embed\<close> as it is; and a provider that accepts anything returns vectors for the list
  \<^verbatim>\<open>[7, None]\<close>.
\<close>

theorem call_list_unchecked:
  "call p (PList xs) w = embed_batch p xs w
   \<and> call p (PList xs) w \<noteq> (Inl invalid_input, w)
   \<and> (\<exists>evs. calls (snd (call p (PList (x # xs)) w)) = calls w @ EmbedCall x # evs)
   \<and> fst (call constant_provider (PList [PInt 7, PNone]) w) = Inr (PList [PArray [1], PArray [1]])"
proof (intro conjI)
  show "call p (PList xs) w \<noteq> (Inl invalid_input, w)"
    by (simp add: call_def embed_batch_not_dispatch_error)
  show "\<exists>evs. calls (snd (call p (PList (x # xs)) w)) = calls w @ EmbedCall x # evs"
    using comprehension_first_call [of p "[]" x xs w] by (simp add: call_def embed_batch_def)
qed (simp_all add: call_def embed_batch_def self_embed_def constant_provider_def)

subsection \<open>Auxiliary facts about rounding\<close>

lemma round_half_even_of_int: "round_half_even (of_int n) = n"
  by (simp add: round_half_even_def)

lemma round_half_even_err: "\<bar>of_int (round_half_even t) - t\<bar> \<le> 1 / 2"
proof -
  have "of_int \<lfloor>t\<rfloor> \<le> t" "t < of_int \<lfloor>t\<rfloor> + 1" by linarith+
  then show ?thesis by (auto simp: round_half_even_def Let_def)
qed

lemma round_ieee_pow2:
  assumes "emin \<le> k" and "1 \<le> p" and "s = 1 \<or> s = - 1"
  shows "round_ieee p emin emax (s * 2 powr of_int k)
         = (if emax < k then (if 0 < s then PosInf else NegInf) else Finite (s * 2 powr of_int k))"
proof -
  let ?x = "s * 2 powr of_int k"
  have ax: "\<bar>?x\<bar> = 2 powr of_int k" using assms(3) by auto
  have nz: "?x \<noteq> 0" using assms(3) by auto
  have e: "max \<lfloor>log 2 \<bar>?x\<bar>\<rfloor> emin = k" using assms(1) by (simp add: ax)
  let ?q = "2 powr (of_int k - (real p - 1))"
  have "?x / ?q = s * 2 powr (real p - 1)"
    by (simp add: powr_diff)
  also have "2 powr (real p - 1) = of_int (2 ^ (p - 1))"
    using assms(2) by (simp add: powr_realpow [symmetric] of_nat_diff)
  finally have t: "?x / ?q = of_int (if s = 1 then 2 ^ (p - 1) else - (2 ^ (p - 1)))"
    using assms(3) by auto
  have y: "of_int (round_half_even (?x / ?q)) * ?q = ?x"
  proof -
    have "of_int (round_half_even (?x / ?q)) = ?x / ?q"
      unfolding t round_half_even_of_int ..
    then show ?thesis by simp
  qed
  have ov: "(2 powr (of_int emax + 1) \<le> \<bar>?x\<bar>) = (emax < k)"
  proof -
    have "(2 powr (of_int emax + 1) \<le> (2::real) powr of_int k) = (of_int emax + 1 \<le> (of_int k :: real))"
      by (rule powr_le_cancel_iff) simp
    also have "\<dots> = (emax < k)" by linarith
    finally show ?thesis by (simp only: ax)
  qed
  have sx: "(0 < ?x) = (0 < s)" using assms(3) by auto
  show ?thesis
    unfolding round_ieee_def using nz by (simp only: e Let_def y ov sx if_False)
qed

lemma round_ieee_rel_err:
  assumes "2 powr of_int emin \<le> x" and "x \<le> 2 powr of_int emax" and "1 \<le> p"
  shows "close_to (2 powr (- real p)) x (round_ieee p emin emax x)"
proof -
  have "0 < (2::real) powr of_int emin" by simp
  with assms(1) have xpos: "0 < x" by linarith
  define k where "k = \<lfloor>log 2 x\<rfloor>"
  have klo: "2 powr of_int k \<le> x"
  proof -
    have "of_int k \<le> log 2 x" unfolding k_def by linarith
    then have "2 powr of_int k \<le> 2 powr log 2 x" by (simp only: powr_le_cancel_iff)
    then show ?thesis using xpos by simp
  qed
  have "of_int emin \<le> log 2 x" using assms(1) xpos by (simp add: le_log_iff)
  then have kmin: "emin \<le> k" unfolding k_def by (simp add: le_floor_iff)
  define q where "q = 2 powr (of_int k - (real p - 1))"
  have qpos: "0 < q" unfolding q_def by simp
  define n where "n = round_half_even (x / q)"
  define y where "y = of_int n * q"
  have "\<bar>of_int n - x / q\<bar> \<le> 1 / 2" unfolding n_def by (rule round_half_even_err)
  then have "\<bar>of_int n - x / q\<bar> * q \<le> 1 / 2 * q" using qpos by (simp add: mult_right_mono)
  moreover have "\<bar>of_int n - x / q\<bar> * q = \<bar>y - x\<bar>"
  proof -
    have "\<bar>of_int n - x / q\<bar> * q = \<bar>(of_int n - x / q) * q\<bar>" using qpos by (simp add: abs_mult)
    also have "(of_int n - x / q) * q = y - x" using qpos by (simp add: y_def algebra_simps)
    finally show ?thesis .
  qed
  ultimately have err: "\<bar>y - x\<bar> \<le> q / 2" by simp
  have qk: "q / 2 = 2 powr of_int k * 2 powr (- real p)"
  proof -
    have "of_int k - (real p - 1) = (of_int k + - real p) + 1" by simp
    then have "q = 2 powr of_int k * 2 powr (- real p) * 2"
      unfolding q_def by (simp only: powr_add powr_one)
    then show ?thesis by simp
  qed
  have "2 powr of_int k * 2 powr (- real p) \<le> x * 2 powr (- real p)"
    using klo by (intro mult_right_mono) simp_all
  moreover from err qk have "\<bar>y - x\<bar> \<le> 2 powr of_int k * 2 powr (- real p)" by simp
  ultimately have "\<bar>y - x\<bar> \<le> x * 2 powr (- real p)" by (rule order_trans [rotated])
  then have rel: "\<bar>y - x\<bar> \<le> 2 powr (- real p) * x" by (simp only: mult.commute)
  have "- real p \<le> - 1" using assms(3) by simp
  then have "2 powr (- real p) \<le> 2 powr (- 1)"
    by (simp only: powr_le_cancel_iff one_less_numeral_iff semiring_norm)
  then have "2 powr (- real p) \<le> 1 / 2" by (simp add: powr_minus)
  then have "2 powr (- real p) * x \<le> 1 / 2 * x" using xpos by (simp add: mult_right_mono)
  with rel have "\<bar>y\<bar> \<le> 3 / 2 * x" using xpos by linarith
  also have "\<dots> \<le> 3 / 2 * 2 powr of_int emax" using assms(2) by simp
  also have "\<dots> < 2 * 2 powr of_int emax" by simp
  also have "\<dots> = 2 powr (of_int emax + 1)" by (simp add: powr_add)
  finally have nov: "\<not> 2 powr (of_int emax + 1) \<le> \<bar>y\<bar>" by simp
  have e: "max \<lfloor>log 2 x\<rfloor> emin = k" using kmin by (simp add: k_def)
  have "round_ieee p emin emax x = Finite y"
    unfolding round_ieee_def using xpos nov
    by (simp add: e Let_def y_def n_def q_def)
  with rel xpos show ?thesis by simp
qed

lemma binary64_round_pow2:
  assumes "- 1022 \<le> k" and "k \<le> 1023" and "s = 1 \<or> s = - 1"
  shows "binary64_round (s * 2 powr of_int k) = Finite (s * 2 powr of_int k)"
  unfolding binary64_round_def using round_ieee_pow2 [of "- 1022" k 53 s 1023] assms by simp

lemma binary32_round_pow2:
  assumes "- 126 \<le> k" and "k \<le> 127" and "s = 1 \<or> s = - 1"
  shows "binary32_round (s * 2 powr of_int k) = Finite (s * 2 powr of_int k)"
  unfolding binary32_round_def using round_ieee_pow2 [of "- 126" k 24 s 127] assms by simp

lemma binary64_round_values:
  "binary64_round 0 = Finite 0" "binary64_round 1 = Finite 1" "binary64_round 2 = Finite 2"
  "binary64_round 4 = Finite 4" "binary64_round 8 = Finite 8" "binary64_round 16 = Finite 16"
  "binary64_round (- 1) = Finite (- 1)" "binary64_round (- 8) = Finite (- 8)"
proof -
  show "binary64_round 0 = Finite 0" by (simp add: binary64_round_def round_ieee_def)
  show "binary64_round 1 = Finite 1" using binary64_round_pow2 [of 0 1] by simp
  show "binary64_round 2 = Finite 2" using binary64_round_pow2 [of 1 1] by simp
  show "binary64_round 4 = Finite 4" using binary64_round_pow2 [of 2 1] by simp
  show "binary64_round 8 = Finite 8" using binary64_round_pow2 [of 3 1] by simp
  show "binary64_round 16 = Finite 16" using binary64_round_pow2 [of 4 1] by simp
  show "binary64_round (- 1) = Finite (- 1)" using binary64_round_pow2 [of 0 "- 1"] by simp
  show "binary64_round (- 8) = Finite (- 8)" using binary64_round_pow2 [of 3 "- 1"] by simp
qed

lemma binary32_round_values:
  "binary32_round 1 = Finite 1" "binary32_round (- 1) = Finite (- 1)"
proof -
  show "binary32_round 1 = Finite 1" using binary32_round_pow2 [of 0 1] by simp
  show "binary32_round (- 1) = Finite (- 1)" using binary32_round_pow2 [of 0 "- 1"] by simp
qed

lemma huge_nonzero: "huge \<noteq> 0" "huge * huge \<noteq> 0"
  by (simp_all add: huge_def)

lemma binary64_round_overflow: "binary64_round (huge * huge) = PosInf"
proof -
  have "huge * huge = 1 * 2 powr of_int 1200"
    unfolding huge_def by (simp add: power_add [symmetric] powr_realpow [symmetric])
  then show ?thesis
    unfolding binary64_round_def using round_ieee_pow2 [of "- 1022" 1200 53 1 1023]
    by (simp only: ) simp
qed

subsection \<open>Auxiliary facts about construction\<close>








lemma new_provider_numpy_world:
  "new_provider (p\<lparr>is_available_override := None\<rparr>) numpy_world
     = (Inr (p\<lparr>is_available_override := None\<rparr>), ready_world)"
  by (simp add: new_provider_def init_def import_dependencies_def import_numpy_as_np_def
      self_is_available_def is_available_def importutil_find_spec_def numpy_world_def
      ready_world_def)

subsection \<open>Auxiliary facts about the numeric operations\<close>

lemma similarity_numpy:
  "np_global w = Some (NumpyModule fp) \<Longrightarrow>
   similarity w u v =
     (if length u \<noteq> length v then Inl (ValueError ''shapes not aligned'')
      else Inr (np_float32 fp
                 (np_true_divide fp (blas_dot fp (map2 (*) u v))
                    (np_multiply fp (np_linalg_norm fp u) (np_linalg_norm fp v)))))"
  by (simp add: similarity_def np_dot_def np_T_def)

lemma map2_mult_commute: "map2 (*) u v = map2 (*) v (u :: real list)"
proof (induction u arbitrary: v)
  case Nil
  then show ?case by simp
next
  case (Cons a u)
  then show ?case by (cases v) (simp_all add: mult.commute)
qed

lemma map2_mult_self: "map2 (*) u u = map (\<lambda>x. x * x) (u :: real list)"
  by (induction u) simp_all

lemma np_multiply_commute: "np_multiply fp x y = np_multiply fp y x"
  by (cases x; cases y) (simp_all add: mult.commute)

lemma np_multiply_zero:
  "np_multiply fp (Finite 0) y = (case y of Finite b \<Rightarrow> Finite 0 | _ \<Rightarrow> NaN)"
  by (cases y) (simp_all add: fl64_def)

lemma divide_by_zero_not_finite:
  "den = Finite 0 \<or> den = NaN \<Longrightarrow> np_float32 fp (np_true_divide fp d den) \<noteq> Finite r"
  by (cases d) (auto split: if_splits)

lemma sum_list_map2_nth:
  "length u = length v \<Longrightarrow> sum_list (map2 (*) u v) = (\<Sum>i<length u. u ! i * (v ! i :: real))"
  by (simp add: sum_list_sum_nth lessThan_atLeast0)

lemma sumsq_nonneg: "0 \<le> (\<Sum>x\<leftarrow>u. x * x :: real)"
  by (induction u) simp_all

lemma sumsq_index: "(\<Sum>x\<leftarrow>u. x * x) = (\<Sum>i<length u. (u ! i :: real)\<^sup>2)"
  by (simp add: sum_list_sum_nth lessThan_atLeast0 power2_eq_square)

lemma sequential_dot_values:
  "sequential_dot [1, 0] = Finite 1" "sequential_dot [4, 0] = Finite 4"
  "sequential_dot [16, 0] = Finite 16" "sequential_dot [- 8, 0] = Finite (- 8)"
  "sequential_dot [1] = Finite 1" "sequential_dot [huge * huge] = PosInf"
  by (simp_all add: sequential_dot_def binary64_round_values binary64_round_overflow)

lemma sqrt_16: "sqrt 16 = 4"
  using real_sqrt_abs [of 4] by simp

lemma np_global_ready: "np_global ready_world = Some (NumpyModule binary64)"
  by (simp add: ready_world_def)

lemma close_toD: "close_to e x r \<Longrightarrow> \<exists>y. r = Finite y \<and> \<bar>y - x\<bar> \<le> e * \<bar>x\<bar>"
  by (cases r) simp_all

lemma rel_bounds:
  fixes x y e :: real
  assumes "\<bar>y - x\<bar> \<le> e * \<bar>x\<bar>" and "0 < x"
  shows "(1 - e) * x \<le> y" and "y \<le> (1 + e) * x"
  using assms by (simp_all add: algebra_simps abs_le_iff)

lemma poly_upper:
  fixes e :: real
  assumes "0 \<le> e" and "e \<le> 1 / 16"
  shows "(1 + e) * (1 + e) \<le> (1 + 8 * e) * ((1 - e) * (1 - e) * (1 - e))"
proof -
  define x2 where "x2 = e * e"
  define x3 where "x3 = e * x2"
  define x4 where "x4 = e * x3"
  have a: "x2 \<le> e * (1 / 16)" unfolding x2_def using assms by (intro mult_left_mono) simp_all
  have b: "0 \<le> x2" "0 \<le> x3" unfolding x2_def x3_def using assms by simp_all
  have "x4 \<le> e * (1 / 16 * (1 / 16 * (1 / 16)))"
    unfolding x4_def x3_def x2_def using assms
    by (intro mult_left_mono mult_mono) simp_all
  then have c: "x4 \<le> e / 4096" by simp
  have l: "(1 + e) * (1 + e) = 1 + 2 * e + x2" by (simp add: x2_def algebra_simps)
  have r: "(1 + 8 * e) * ((1 - e) * (1 - e) * (1 - e)) = 1 + 5 * e - 21 * x2 + 23 * x3 - 8 * x4"
    by (simp add: x2_def x3_def x4_def algebra_simps)
  show ?thesis unfolding l r using a b c assms by linarith
qed

lemma poly_lower:
  fixes e :: real
  assumes "0 \<le> e"
  shows "(1 - 8 * e) * ((1 + e) * (1 + e) * (1 + e)) \<le> (1 - e) * (1 - e)"
proof -
  define x2 where "x2 = e * e"
  define x3 where "x3 = e * x2"
  define x4 where "x4 = e * x3"
  have b: "0 \<le> x2" "0 \<le> x3" "0 \<le> x4" unfolding x2_def x3_def x4_def using assms by simp_all
  have l: "(1 - e) * (1 - e) = 1 - 2 * e + x2" by (simp add: x2_def algebra_simps)
  have r: "(1 - 8 * e) * ((1 + e) * (1 + e) * (1 + e)) = 1 - 5 * e - 21 * x2 - 23 * x3 - 8 * x4"
    by (simp add: x2_def x3_def x4_def algebra_simps)
  show ?thesis unfolding l r using b assms by linarith
qed

lemma self_similarity_tolerance:
  assumes np: "np_global w = Some (NumpyModule fp)"
    and sm: "standard_model fp e lo hi"
    and e0: "0 \<le> e" and e1: "e \<le> 1 / 16"
    and lo0: "0 < lo" and lo1: "lo \<le> 1 / 2" and hi2: "2 \<le> hi"
    and S: "blas_dot fp (map (\<lambda>x. x * x) u) = Finite s"
    and r1: "lo \<le> sqrt s" and r2: "sqrt s \<le> hi" and r3: "lo \<le> s / 2" and r4: "2 * s \<le> hi"
  shows "\<exists>c. similarity w u u = Inr (Finite c) \<and> \<bar>c - 1\<bar> \<le> 8 * e"
proof -
  define L where "L = 1 - e"
  define U where "U = 1 + e"
  have L: "15 / 16 \<le> L" "L \<le> 1" and U: "1 \<le> U" "U \<le> 17 / 16"
    using e0 e1 by (simp_all add: L_def U_def)
  have Lpos: "0 < L" using L by linarith
  have Upos: "0 < U" using U by linarith
  from sm have s64: "\<And>x. lo \<le> x \<Longrightarrow> x \<le> hi \<Longrightarrow> close_to e x (round64 fp x)"
    and s32: "\<And>x. 1 / 2 \<le> x \<Longrightarrow> x \<le> 2 \<Longrightarrow> close_to e x (round32 fp x)"
    by (simp_all add: standard_model_def)
  have spos: "0 < s" using r3 lo0 by linarith
  define t where "t = sqrt s"
  have tpos: "0 < t" using spos by (simp add: t_def)
  have tt: "t * t = s" using spos by (simp add: t_def)
  from close_toD [OF s64 [OF r1 r2]] obtain a where
    a: "round64 fp t = Finite a" and "\<bar>a - t\<bar> \<le> e * \<bar>t\<bar>" by (auto simp: t_def)
  then have a_lo: "L * t \<le> a" and a_hi: "a \<le> U * t"
    using rel_bounds [of a t e] tpos by (simp_all add: L_def U_def)
  have Lt: "0 < L * t" using Lpos tpos by simp
  then have apos: "0 < a" using a_lo by linarith
  have norm: "np_linalg_norm fp u = Finite a"
    using spos tpos a by (simp add: np_linalg_norm_def S fl64_def t_def)
  have aa_lo: "L * L * s \<le> a * a"
  proof -
    have "(L * t) * (L * t) \<le> a * a" using a_lo Lt by (intro mult_mono) simp_all
    then show ?thesis using tt by (simp add: algebra_simps)
  qed
  have aa_hi: "a * a \<le> U * U * s"
  proof -
    have "a * a \<le> (U * t) * (U * t)" using a_hi apos by (intro mult_mono) simp_all
    then show ?thesis using tt by (simp add: algebra_simps)
  qed
  have LL: "225 / 256 \<le> L * L"
  proof -
    have "(15 / 16) * (15 / 16) \<le> L * L" using L by (intro mult_mono) simp_all
    then show ?thesis by simp
  qed
  have UU: "U * U \<le> 289 / 256"
  proof -
    have "U * U \<le> (17 / 16) * (17 / 16)" using U by (intro mult_mono) simp_all
    then show ?thesis by simp
  qed
  have LLs: "225 / 256 * s \<le> L * L * s" using LL spos by (intro mult_right_mono) simp_all
  have UUs: "U * U * s \<le> 289 / 256 * s" using UU spos by (intro mult_right_mono) simp_all
  have aapos: "0 < a * a" using apos by simp
  have "lo \<le> a * a" using aa_lo LLs r3 spos by linarith
  moreover have "a * a \<le> hi" using aa_hi UUs r4 spos by linarith
  ultimately have "close_to e (a * a) (round64 fp (a * a))" by (rule s64)
  from close_toD [OF this] obtain d where
    d: "round64 fp (a * a) = Finite d" and "\<bar>d - a * a\<bar> \<le> e * \<bar>a * a\<bar>" by auto
  then have d_lo: "L * (a * a) \<le> d" and d_hi: "d \<le> U * (a * a)"
    using rel_bounds [of d "a * a" e] aapos by (simp_all add: L_def U_def)
  have "0 < L * (a * a)" using Lpos aapos by simp
  with d_lo have dpos: "0 < d" by linarith
  have den: "np_multiply fp (np_linalg_norm fp u) (np_linalg_norm fp u) = Finite d"
    using norm d apos by (simp add: fl64_def)
  have d_lo3: "L * L * L * s \<le> d"
  proof -
    have "L * (L * L * s) \<le> L * (a * a)" using aa_lo Lpos by (intro mult_left_mono) simp_all
    with d_lo show ?thesis by (simp add: algebra_simps)
  qed
  have d_hi3: "d \<le> U * U * U * s"
  proof -
    have "U * (a * a) \<le> U * (U * U * s)" using aa_hi Upos by (intro mult_left_mono) simp_all
    with d_hi show ?thesis by (simp add: algebra_simps)
  qed
  have L3: "3375 / 4096 \<le> L * L * L"
  proof -
    have "(225 / 256) * (15 / 16) \<le> (L * L) * L" using LL L by (intro mult_mono) simp_all
    then show ?thesis by simp
  qed
  have U3: "U * U * U \<le> 4913 / 4096"
  proof -
    have "(U * U) * U \<le> (289 / 256) * (17 / 16)" using UU U by (intro mult_mono) simp_all
    then show ?thesis by simp
  qed
  have L3pos: "0 < L * L * L" using Lpos by simp
  have U3pos: "0 < U * U * U" using Upos by simp
  define g where "g = s / d"
  have gpos: "0 < g" using spos dpos by (simp add: g_def)
  have g_hi: "g \<le> 1 / (L * L * L)"
  proof -
    have "g * (L * L * L * s) \<le> g * d" using d_lo3 gpos by (intro mult_left_mono) simp_all
    also have "g * d = s" using dpos by (simp add: g_def)
    finally have "g * (L * L * L) * s \<le> 1 * s" by (simp add: algebra_simps)
    then have "g * (L * L * L) \<le> 1" using spos by (simp only: mult_le_cancel_right_pos)
    then show ?thesis using L3pos by (simp add: pos_le_divide_eq)
  qed
  have g_lo: "1 / (U * U * U) \<le> g"
  proof -
    have "g * d \<le> g * (U * U * U * s)" using d_hi3 gpos by (intro mult_left_mono) simp_all
    moreover have "g * d = s" using dpos by (simp add: g_def)
    ultimately have "1 * s \<le> g * (U * U * U) * s" by (simp add: algebra_simps)
    then have "1 \<le> g * (U * U * U)" using spos by (simp only: mult_le_cancel_right_pos)
    then show ?thesis using U3pos by (simp add: pos_divide_le_eq)
  qed
  have g_hi': "g \<le> 4096 / 3375"
  proof -
    have "1 / (L * L * L) \<le> 1 / (3375 / 4096)" using L3 by (intro divide_left_mono) simp_all
    with g_hi show ?thesis by simp
  qed
  have g_lo': "4096 / 4913 \<le> g"
  proof -
    have "1 / (4913 / 4096) \<le> 1 / (U * U * U)" using U3 U3pos by (intro divide_left_mono) simp_all
    with g_lo show ?thesis by simp
  qed
  have "lo \<le> g" using g_lo' lo1 by linarith
  moreover have "g \<le> hi" using g_hi' hi2 by linarith
  ultimately have "close_to e g (round64 fp g)" by (rule s64)
  from close_toD [OF this] obtain c where
    c: "round64 fp g = Finite c" and "\<bar>c - g\<bar> \<le> e * \<bar>g\<bar>" by auto
  then have c_lo: "L * g \<le> c" and c_hi: "c \<le> U * g"
    using rel_bounds [of c g e] gpos by (simp_all add: L_def U_def)
  have Lg: "15 / 16 * (4096 / 4913) \<le> L * g" using L g_lo' by (intro mult_mono) simp_all
  have Ug: "U * g \<le> 17 / 16 * (4096 / 3375)" using U g_hi' gpos by (intro mult_mono) simp_all
  have cpos: "0 < c" using c_lo Lg by linarith
  have quot: "np_true_divide fp (Finite s) (Finite d) = Finite c"
    using dpos spos gpos c by (simp add: fl64_def g_def)
  have "1 / 2 \<le> c" using c_lo Lg by linarith
  moreover have "c \<le> 2" using c_hi Ug by linarith
  ultimately have "close_to e c (round32 fp c)" by (rule s32)
  from close_toD [OF this] obtain c' where
    c': "round32 fp c = Finite c'" and "\<bar>c' - c\<bar> \<le> e * \<bar>c\<bar>" by auto
  then have c'_lo: "L * c \<le> c'" and c'_hi: "c' \<le> U * c"
    using rel_bounds [of c' c e] cpos by (simp_all add: L_def U_def)
  have cast: "np_float32 fp (Finite c) = Finite c'" using c' cpos by (simp add: fl32_def)
  have num: "blas_dot fp (map2 (*) u u) = Finite s" by (simp add: map2_mult_self S)
  have "similarity w u u
      = Inr (np_float32 fp
               (np_true_divide fp (blas_dot fp (map2 (*) u u))
                  (np_multiply fp (np_linalg_norm fp u) (np_linalg_norm fp u))))"
    by (simp add: similarity_numpy [OF np])
  then have result: "similarity w u u = Inr (Finite c')"
    by (simp only: num den quot cast)
  have up: "c' \<le> 1 + 8 * e"
  proof -
    have "U * c \<le> U * (U * g)" using c_hi Upos by (intro mult_left_mono) simp_all
    with c'_hi have "c' \<le> U * (U * g)" by linarith
    also have "\<dots> \<le> U * (U * (1 / (L * L * L)))"
      using g_hi Upos by (intro mult_left_mono) simp_all
    also have "\<dots> = (U * U) / (L * L * L)" by simp
    also have "\<dots> \<le> 1 + 8 * e"
    proof -
      have "U * U \<le> (1 + 8 * e) * (L * L * L)"
        unfolding U_def L_def using poly_upper [OF e0 e1] .
      then show ?thesis using L3pos by (simp add: pos_divide_le_eq)
    qed
    finally show ?thesis .
  qed
  have down: "1 - 8 * e \<le> c'"
  proof -
    have "(1 - 8 * e) * (U * U * U) \<le> L * L"
      unfolding U_def L_def using poly_lower [OF e0] .
    then have "1 - 8 * e \<le> (L * L) / (U * U * U)" using U3pos by (simp add: pos_le_divide_eq)
    also have "\<dots> = L * (L * (1 / (U * U * U)))" by simp
    also have "\<dots> \<le> L * (L * g)" using g_lo Lpos by (intro mult_left_mono) simp_all
    also have "\<dots> \<le> L * c" using c_lo Lpos by (intro mult_left_mono) simp_all
    also have "\<dots> \<le> c'" by (rule c'_lo)
    finally show ?thesis .
  qed
  from up down have "\<bar>c' - 1\<bar> \<le> 8 * e" by (simp add: abs_le_iff)
  with result show ?thesis by blast
qed

lemma close_to_mono: "close_to e x r \<Longrightarrow> e \<le> e' \<Longrightarrow> close_to e' x r"
proof (cases r)
  case (Finite y)
  assume "close_to e x r" and le: "e \<le> e'"
  with Finite have "\<bar>y - x\<bar> \<le> e * \<bar>x\<bar>" by simp
  also have "\<dots> \<le> e' * \<bar>x\<bar>" using le by (intro mult_right_mono) simp_all
  finally show ?thesis using Finite by simp
qed simp_all

lemma powr2_mono: "a \<le> b \<Longrightarrow> (2::real) powr a \<le> 2 powr b"
  by simp

lemma ieee_standard_model:
  assumes "round64 fp = binary64_round" and "round32 fp = binary32_round"
  shows "standard_model fp (2 powr (- 24)) (2 powr (- 1022)) (2 powr 1023)"
  unfolding standard_model_def
proof (intro conjI allI impI)
  fix x :: real
  assume "2 powr (- 1022) \<le> x \<and> x \<le> 2 powr 1023"
  then have "2 powr of_int (- 1022) \<le> x" "x \<le> 2 powr of_int 1023" by simp_all
  then have "close_to (2 powr (- real 53)) x (round_ieee 53 (- 1022) 1023 x)"
    by (rule round_ieee_rel_err) simp
  moreover have "(2::real) powr (- real 53) \<le> 2 powr (- 24)" by (rule powr2_mono) simp
  ultimately show "close_to (2 powr (- 24)) x (round64 fp x)"
    unfolding assms binary64_round_def by (rule close_to_mono)
next
  fix x :: real
  assume a: "1 / 2 \<le> x \<and> x \<le> 2"
  have "(2::real) powr of_int (- 126) \<le> 2 powr (- 1)" by (rule powr2_mono) simp
  also have "\<dots> = 1 / 2" by (simp add: powr_minus)
  finally have lo: "2 powr of_int (- 126) \<le> x" using a by linarith
  have "(2::real) powr 1 \<le> 2 powr of_int 127" by (rule powr2_mono) simp
  then have hi: "x \<le> 2 powr of_int 127" using a by simp
  from lo hi have "close_to (2 powr (- real 24)) x (round_ieee 24 (- 126) 127 x)"
    by (rule round_ieee_rel_err) simp
  then show "close_to (2 powr (- 24)) x (round32 fp x)"
    unfolding assms binary32_round_def by simp
qed

lemma sqrt_between:
  assumes "lo \<le> s" and "s \<le> hi" and "0 < lo" and "lo \<le> 1" and "1 \<le> hi"
  shows "lo \<le> sqrt s" and "sqrt s \<le> hi"
proof -
  have spos: "0 < s" using assms by linarith
  show "lo \<le> sqrt s"
  proof (cases "s \<le> 1")
    case True
    have "s * s \<le> s * 1" using True spos by (intro mult_left_mono) simp_all
    then have "s\<^sup>2 \<le> s" by (simp add: power2_eq_square)
    then have "sqrt (s\<^sup>2) \<le> sqrt s" by (simp only: real_sqrt_le_iff)
    then have "s \<le> sqrt s" using spos by simp
    with assms(1) show ?thesis by linarith
  next
    case False
    then have "1 \<le> sqrt s" by simp
    with assms(4) show ?thesis by linarith
  qed
  show "sqrt s \<le> hi"
  proof (cases "s \<le> 1")
    case True
    then have "sqrt s \<le> 1" by simp
    with assms(5) show ?thesis by linarith
  next
    case False
    then have "s * 1 \<le> s * s" using spos by (intro mult_left_mono) simp_all
    then have "s \<le> s\<^sup>2" by (simp add: power2_eq_square)
    then have "sqrt s \<le> sqrt (s\<^sup>2)" by (simp only: real_sqrt_le_iff)
    then have "sqrt s \<le> s" using spos by simp
    with assms(2) show ?thesis by linarith
  qed
qed

lemma self_similarity_ieee:
  assumes np: "np_global w = Some (NumpyModule fp)"
    and r64: "round64 fp = binary64_round" and r32: "round32 fp = binary32_round"
    and S: "blas_dot fp (map (\<lambda>x. x * x) u) = Finite s"
    and lo: "2 powr (- 1021) \<le> s" and hi: "s \<le> 2 powr 1022"
  shows "\<exists>c. similarity w u u = Inr (Finite c) \<and> \<bar>c - 1\<bar> \<le> 2 powr (- 21)"
proof -
  define l :: real where "l = 2 powr (- 1022)"
  define h :: real where "h = 2 powr 1023"
  define e :: real where "e = 2 powr (- 24)"
  have sm: "standard_model fp e l h"
    unfolding e_def l_def h_def using r64 r32 by (rule ieee_standard_model)
  have e0: "0 \<le> e" unfolding e_def by (rule powr_ge_zero)
  have e1: "e \<le> 1 / 16"
  proof -
    have "e \<le> 2 powr (- 4)" unfolding e_def by (rule powr2_mono) simp
    moreover have "(2::real) powr (- 4) = 1 / 16" by (simp add: powr_minus)
    ultimately show ?thesis by (simp only:)
  qed
  have l0: "0 < l" unfolding l_def by (simp only: powr_gt_zero)
  have l1: "l \<le> 1 / 2"
  proof -
    have "l \<le> 2 powr (- 1)" unfolding l_def by (rule powr2_mono) simp
    moreover have "(2::real) powr (- 1) = 1 / 2" by (simp add: powr_minus)
    ultimately show ?thesis by (simp only:)
  qed
  have h2: "2 \<le> h"
  proof -
    have "2 powr 1 \<le> h" unfolding h_def by (rule powr2_mono) simp
    moreover have "(2::real) powr 1 = 2" by simp
    ultimately show ?thesis by (simp only:)
  qed
  have two_l: "2 * l = 2 powr (- 1021)"
  proof -
    have "(- 1021 :: real) = 1 + (- 1022)" by simp
    then have "(2::real) powr (- 1021) = 2 powr 1 * 2 powr (- 1022)" by (simp only: powr_add)
    moreover have "(2::real) powr 1 = 2" by simp
    ultimately show ?thesis unfolding l_def by (simp only:)
  qed
  have two_h: "2 * 2 powr 1022 = h"
  proof -
    have "(1023 :: real) = 1 + 1022" by simp
    then have "(2::real) powr 1023 = 2 powr 1 * 2 powr 1022" by (simp only: powr_add)
    moreover have "(2::real) powr 1 = 2" by simp
    ultimately show ?thesis unfolding h_def by (simp only:)
  qed
  define k :: real where "k = 2 powr 1022"
  have kh: "2 * k = h" unfolding k_def by (rule two_h)
  have sk: "s \<le> k" unfolding k_def by (rule hi)
  have ls: "2 * l \<le> s" using lo by (simp only: two_l)
  have r3: "l \<le> s / 2" using ls by linarith
  have r4: "2 * s \<le> h" using sk kh by linarith
  have "l \<le> s" using ls l0 by linarith
  moreover have "k \<le> h" using kh sk ls l0 by linarith
  then have "s \<le> h" using sk by linarith
  moreover have "l \<le> 1" using l1 by linarith
  moreover have "1 \<le> h" using h2 by linarith
  ultimately have r1: "l \<le> sqrt s" and r2: "sqrt s \<le> h"
    using l0 by (auto intro: sqrt_between)
  from self_similarity_tolerance [OF np sm e0 e1 l0 l1 h2 S r1 r2 r3 r4]
  obtain c where c: "similarity w u u = Inr (Finite c)" and t: "\<bar>c - 1\<bar> \<le> 8 * e"
    by auto
  have "8 * e = 2 powr (- 21)"
  proof -
    have "(- 21 :: real) = 3 + (- 24)" by simp
    then have "(2::real) powr (- 21) = 2 powr 3 * 2 powr (- 24)" by (simp only: powr_add)
    moreover have "(2::real) powr 3 = 8" by simp
    ultimately show ?thesis unfolding e_def by (simp only:)
  qed
  with t have "\<bar>c - 1\<bar> \<le> 2 powr (- 21)" by (simp only:)
  with c show ?thesis by blast
qed

lemma similarity_commute: "similarity w u v = similarity w v u"
proof (cases "np_global w")
  case None
  then show ?thesis by (simp add: similarity_def)
next
  case (Some m)
  show ?thesis
  proof (cases m)
    case (OtherModule name)
    with Some show ?thesis by (simp add: similarity_def)
  next
    case (NumpyModule fp)
    with Some have np: "np_global w = Some (NumpyModule fp)" by simp
    show ?thesis
      unfolding similarity_numpy [OF np]
      using map2_mult_commute [of u v] np_multiply_commute [of fp "np_linalg_norm fp u"]
      by auto
  qed
qed

lemma similarity_ready_example: "similarity ready_world [2, 0] [- 4, 0] = Inr (Finite (- 1))"
proof -
  have "np_linalg_norm binary64 [2, 0] = Finite 2" "np_linalg_norm binary64 [- 4, 0] = Finite 4"
    by (simp_all add: np_linalg_norm_def blas_dot_def binary64_def sequential_dot_values
        fl64_def binary64_round_values sqrt_16)
  moreover have "blas_dot binary64 (map2 (*) [2, 0] [- 4, 0]) = Finite (- 8)"
    by (simp add: blas_dot_def binary64_def sequential_dot_values)
  ultimately show ?thesis
    using similarity_numpy [OF np_global_ready, of "[2, 0]" "[- 4, 0]"]
    by (simp add: fl64_def fl32_def binary64_def binary64_round_values binary32_round_values)
qed

subsection \<open>Construction and availability\<close>





subsection \<open>Similarity\<close>

text \<open>
  Claim C5, as stated, fails: it promises the cosine similarity for every pair of
  vectors. For vectors of different lengths, here 2 and 3 (the contract allows vectors of
  different providers), \<^verbatim>\<open>np.dot\<close> raises \<^verbatim>\<open>ValueError\<close> and nothing is returned.
\<close>

theorem similarity_cosine_counterexample:
  "new_provider constant_provider numpy_world = (Inr constant_provider, ready_world)
   \<and> similarity ready_world [1, 2] [1, 2, 3] = Inl (ValueError ''shapes not aligned'')"
  by (simp add: new_provider_def init_def import_dependencies_def import_numpy_as_np_def
      self_is_available_def is_available_def importutil_find_spec_def numpy_world_def
      ready_world_def constant_provider_def similarity_def np_dot_def np_T_def)

text \<open>
  Claim C5, amended. Where \<^verbatim>\<open>np\<close> is bound to numpy: for vectors of different lengths
  \<^verbatim>\<open>similarity\<close> raises \<^verbatim>\<open>ValueError\<close>; for vectors of equal length it returns one
  \<^verbatim>\<open>float32\<close> scalar, the dot product of \<open>u\<close> and \<open>v\<close> divided by the product of their
  Euclidean norms, each operation carried out in floating point (so the result can be
  rounded, infinite or NaN). Where no operation rounds and both norms are non-zero, the
  result is exactly the cosine similarity.
\<close>

theorem similarity_cosine:
  assumes "np_global w = Some (NumpyModule fp)"
  shows "similarity w u v =
           (if length u \<noteq> length v then Inl (ValueError ''shapes not aligned'')
            else Inr (np_float32 fp
                       (np_true_divide fp (blas_dot fp (map2 (*) u v))
                          (np_multiply fp (np_linalg_norm fp u) (np_linalg_norm fp v)))))
         \<and> (length u = length v \<longrightarrow> euclidean_norm u \<noteq> 0 \<longrightarrow> euclidean_norm v \<noteq> 0 \<longrightarrow>
              no_rounding fp u v \<longrightarrow>
              similarity w u v = Inr (Finite (cosine_similarity u v)))"
proof (intro conjI impI)
  show "similarity w u v =
           (if length u \<noteq> length v then Inl (ValueError ''shapes not aligned'')
            else Inr (np_float32 fp
                       (np_true_divide fp (blas_dot fp (map2 (*) u v))
                          (np_multiply fp (np_linalg_norm fp u) (np_linalg_norm fp v)))))"
    using assms by (rule similarity_numpy)
next
  assume l: "length u = length v"
    and nz: "euclidean_norm u \<noteq> 0" "euclidean_norm v \<noteq> 0"
    and ex: "no_rounding fp u v"
  have d: "blas_dot fp (map2 (*) u v) = Finite (dot_product u v)"
    using ex l by (simp add: no_rounding_def sum_list_map2_nth dot_product_def)
  have nu: "np_linalg_norm fp u = Finite (euclidean_norm u)"
    using ex sumsq_nonneg [of u]
    by (simp add: no_rounding_def np_linalg_norm_def euclidean_norm_def sumsq_index)
  have nv: "np_linalg_norm fp v = Finite (euclidean_norm v)"
    using ex sumsq_nonneg [of v]
    by (simp add: no_rounding_def np_linalg_norm_def euclidean_norm_def sumsq_index)
  have m: "np_multiply fp (Finite (euclidean_norm u)) (Finite (euclidean_norm v))
      = Finite (euclidean_norm u * euclidean_norm v)"
    using ex by (simp add: no_rounding_def)
  have q: "np_true_divide fp (Finite (dot_product u v))
        (Finite (euclidean_norm u * euclidean_norm v)) = Finite (cosine_similarity u v)"
    using ex nz by (simp add: no_rounding_def cosine_similarity_def)
  have c: "np_float32 fp (Finite (cosine_similarity u v)) = Finite (cosine_similarity u v)"
    using ex by (simp add: no_rounding_def)
  have "similarity w u v
      = Inr (np_float32 fp
               (np_true_divide fp (blas_dot fp (map2 (*) u v))
                  (np_multiply fp (np_linalg_norm fp u) (np_linalg_norm fp v))))"
    using l by (simp add: similarity_numpy [OF assms])
  then show "similarity w u v = Inr (Finite (cosine_similarity u v))"
    by (simp only: d nu nv m q c)
qed

theorem similarity_cosine_witness:
  "similarity ready_world [2, 0] [- 4, 0] = Inr (Finite (- 1))
   \<and> cosine_similarity [2, 0] [- 4, 0] = - 1"
proof -
  have l: "length [2, 0 :: real] = length [- 4, 0 :: real]" by simp
  have d: "dot_product [2, 0] [- 4, 0] = - 8"
    by (simp add: dot_product_def lessThan_Suc numeral_2_eq_2)
  have n: "euclidean_norm [2, 0] = 2" "euclidean_norm [- 4, 0] = 4"
    by (simp_all add: euclidean_norm_def lessThan_Suc numeral_2_eq_2 sqrt_16)
  have c: "cosine_similarity [2, 0] [- 4, 0] = - 1"
    by (simp add: cosine_similarity_def d n)
  have nr: "no_rounding binary64 [2, 0] [- 4, 0]"
    unfolding no_rounding_def c n
    by (simp add: blas_dot_def binary64_def sequential_dot_values fl64_def fl32_def
        binary64_round_values binary32_round_values)
  from similarity_cosine [OF np_global_ready, of "[2, 0]" "[- 4, 0]", THEN conjunct2,
      rule_format, OF l _ _ nr] n c
  show ?thesis by simp
qed

text \<open>
  Claim C6, as stated, fails: it promises \<^verbatim>\<open>similarity(u, v) == similarity(v, u)\<close> for
  all vectors of equal length. With a zero vector both calls return NaN, and NaN is not
  equal to itself.
\<close>

theorem similarity_symmetric_counterexample:
  "new_provider constant_provider numpy_world = (Inr constant_provider, ready_world)
   \<and> length [0 :: real] = length [1 :: real]
   \<and> similarity ready_world [0] [1] = Inr NaN
   \<and> similarity ready_world [1] [0] = Inr NaN
   \<and> \<not> np_eq NaN NaN"
proof -
  have c: "new_provider constant_provider numpy_world = (Inr constant_provider, ready_world)"
    by (simp add: new_provider_def init_def import_dependencies_def import_numpy_as_np_def
      self_is_available_def is_available_def importutil_find_spec_def numpy_world_def
      ready_world_def constant_provider_def)
  have n0: "np_linalg_norm binary64 [0] = Finite 0"
    by (simp add: np_linalg_norm_def blas_dot_def fl64_def)
  have n1: "np_linalg_norm binary64 [1] = Finite 1"
    by (simp add: np_linalg_norm_def blas_dot_def binary64_def sequential_dot_values
        fl64_def binary64_round_values)
  have "similarity ready_world [0] [1] = Inr NaN" "similarity ready_world [1] [0] = Inr NaN"
    by (simp_all add: similarity_numpy [OF np_global_ready] n0 n1 blas_dot_def fl64_def)
  with c show ?thesis by (simp add: np_eq_def)
qed

text \<open>
  Claim C6, amended. For all vectors \<open>u\<close> and \<open>v\<close>, \<^verbatim>\<open>similarity(u, v)\<close> and
  \<^verbatim>\<open>similarity(v, u)\<close> have the same outcome (the same value or the same exception), so
  \<^verbatim>\<open>similarity(u, v) == similarity(v, u)\<close> holds exactly when the value is not NaN. On
  IEEE 754 arithmetic (whatever the inner-product routine), for every \<open>u\<close> whose computed
  squared norm is a float between 2 to the power -1021 and 2 to the power 1022 (it
  neither underflows nor overflows), \<^verbatim>\<open>similarity(u, u)\<close> is within 2 to the power -21
  of 1.
\<close>

theorem similarity_symmetric:
  "similarity w u v = similarity w v u
   \<and> (similarity w u v = Inr x \<longrightarrow> similarity w v u = Inr x \<and> np_eq x x = (x \<noteq> NaN))
   \<and> (np_global w = Some (NumpyModule fp) \<longrightarrow>
        round64 fp = binary64_round \<longrightarrow> round32 fp = binary32_round \<longrightarrow>
        blas_dot fp (map (\<lambda>x. x * x) u) = Finite s \<longrightarrow>
        2 powr (- 1021) \<le> s \<longrightarrow> s \<le> 2 powr 1022 \<longrightarrow>
        (\<exists>c. similarity w u u = Inr (Finite c) \<and> \<bar>c - 1\<bar> \<le> 2 powr (- 21)))"
proof (intro conjI impI)
  show "similarity w u v = similarity w v u" by (rule similarity_commute)
next
  assume "similarity w u v = Inr x"
  then show "similarity w v u = Inr x" by (simp add: similarity_commute [of w v u])
next
  show "np_eq x x = (x \<noteq> NaN)" by (simp add: np_eq_def)
next
  assume "np_global w = Some (NumpyModule fp)" "round64 fp = binary64_round"
    "round32 fp = binary32_round" "blas_dot fp (map (\<lambda>x. x * x) u) = Finite s"
    "2 powr (- 1021) \<le> s" "s \<le> 2 powr 1022"
  then show "\<exists>c. similarity w u u = Inr (Finite c) \<and> \<bar>c - 1\<bar> \<le> 2 powr (- 21)"
    by (rule self_similarity_ieee)
qed

theorem similarity_symmetric_witness:
  "similarity ready_world [2, 0] [- 4, 0] = Inr (Finite (- 1))
   \<and> similarity ready_world [- 4, 0] [2, 0] = Inr (Finite (- 1))
   \<and> np_eq (Finite (- 1)) (Finite (- 1))
   \<and> (\<exists>c. similarity ready_world [1, 0] [1, 0] = Inr (Finite c) \<and> \<bar>c - 1\<bar> \<le> 2 powr (- 21))"
proof -
  have a: "similarity ready_world [2, 0] [- 4, 0] = Inr (Finite (- 1))"
    by (rule similarity_ready_example)
  from similarity_symmetric [THEN conjunct2, THEN conjunct1, rule_format, OF a]
  have b: "similarity ready_world [- 4, 0] [2, 0] = Inr (Finite (- 1))"
    and c: "np_eq (Finite (- 1)) (Finite (- 1))" by simp_all
  have r: "round64 binary64 = binary64_round" "round32 binary64 = binary32_round"
    by (simp_all add: binary64_def)
  have S: "blas_dot binary64 (map (\<lambda>x. x * x) [1, 0]) = Finite 1"
    by (simp add: blas_dot_def binary64_def sequential_dot_values)
  have one: "(2::real) powr 0 = 1" by simp
  have "(2::real) powr (- 1021) \<le> 2 powr 0" by (rule powr2_mono) simp
  then have lo: "(2::real) powr (- 1021) \<le> 1" by (simp only: one)
  have "(2::real) powr 0 \<le> 2 powr 1022" by (rule powr2_mono) simp
  then have hi: "(1::real) \<le> 2 powr 1022" by (simp only: one)
  have d: "\<exists>c. similarity ready_world [1, 0] [1, 0] = Inr (Finite c) \<and> \<bar>c - 1\<bar> \<le> 2 powr (- 21)"
    by (rule similarity_symmetric [THEN conjunct2, THEN conjunct2, rule_format,
          OF np_global_ready r S lo hi])
  from a b c d show ?thesis by (intro conjI)
qed

text \<open>
  Claim C8, as stated, fails in one point: it says that when \<open>u\<close> or \<open>v\<close> has norm zero
  the denominator is zero. When the other norm has overflowed to infinity, the
  denominator is zero times infinity, a NaN.
\<close>

theorem similarity_zero_norm_counterexample:
  "new_provider constant_provider numpy_world = (Inr constant_provider, ready_world)
   \<and> np_global ready_world = Some (NumpyModule binary64)
   \<and> np_linalg_norm binary64 [0] = Finite 0
   \<and> np_linalg_norm binary64 [huge] = PosInf
   \<and> np_multiply binary64 (np_linalg_norm binary64 [0]) (np_linalg_norm binary64 [huge]) = NaN
   \<and> similarity ready_world [0] [huge] = Inr NaN"
proof -
  have c: "new_provider constant_provider numpy_world = (Inr constant_provider, ready_world)"
    by (simp add: new_provider_def init_def import_dependencies_def import_numpy_as_np_def
      self_is_available_def is_available_def importutil_find_spec_def numpy_world_def
      ready_world_def constant_provider_def)
  have n0: "np_linalg_norm binary64 [0] = Finite 0"
    by (simp add: np_linalg_norm_def blas_dot_def fl64_def)
  have n1: "np_linalg_norm binary64 [huge] = PosInf"
    by (simp add: np_linalg_norm_def blas_dot_def binary64_def sequential_dot_values huge_nonzero)
  have s: "similarity ready_world [0] [huge] = Inr NaN"
    by (simp add: similarity_numpy [OF np_global_ready] n0 n1 blas_dot_def)
  from c n0 n1 s show ?thesis by (simp add: np_global_ready)
qed

text \<open>
  Claim C8, amended. The division is not guarded: for vectors of equal length the result
  is the dot product divided by the product of the two norms, whatever that product is.
  When \<open>u\<close> or \<open>v\<close> has norm zero, the denominator is zero if the other norm is finite and
  NaN otherwise, and the call never returns a finite score: it returns NaN or an
  infinity (or raises \<^verbatim>\<open>ValueError\<close>, for different lengths). The case is reachable
  through the public method.
\<close>

theorem similarity_zero_norm:
  assumes "np_global w = Some (NumpyModule fp)"
  shows "similarity w u v =
           (if length u \<noteq> length v then Inl (ValueError ''shapes not aligned'')
            else Inr (np_float32 fp
                       (np_true_divide fp (blas_dot fp (map2 (*) u v))
                          (np_multiply fp (np_linalg_norm fp u) (np_linalg_norm fp v)))))
         \<and> (np_linalg_norm fp u = Finite 0 \<longrightarrow>
              np_multiply fp (np_linalg_norm fp u) (np_linalg_norm fp v)
                = (case np_linalg_norm fp v of Finite b \<Rightarrow> Finite 0 | _ \<Rightarrow> NaN))
         \<and> (np_linalg_norm fp v = Finite 0 \<longrightarrow>
              np_multiply fp (np_linalg_norm fp u) (np_linalg_norm fp v)
                = (case np_linalg_norm fp u of Finite b \<Rightarrow> Finite 0 | _ \<Rightarrow> NaN))
         \<and> (np_linalg_norm fp u = Finite 0 \<or> np_linalg_norm fp v = Finite 0 \<longrightarrow>
              (\<forall>r. similarity w u v \<noteq> Inr (Finite r)))"
proof (intro conjI impI allI)
  show "similarity w u v =
           (if length u \<noteq> length v then Inl (ValueError ''shapes not aligned'')
            else Inr (np_float32 fp
                       (np_true_divide fp (blas_dot fp (map2 (*) u v))
                          (np_multiply fp (np_linalg_norm fp u) (np_linalg_norm fp v)))))"
    using assms by (rule similarity_numpy)
next
  assume "np_linalg_norm fp u = Finite 0"
  then show "np_multiply fp (np_linalg_norm fp u) (np_linalg_norm fp v)
                = (case np_linalg_norm fp v of Finite b \<Rightarrow> Finite 0 | _ \<Rightarrow> NaN)"
    by (simp add: np_multiply_zero)
next
  assume "np_linalg_norm fp v = Finite 0"
  then show "np_multiply fp (np_linalg_norm fp u) (np_linalg_norm fp v)
                = (case np_linalg_norm fp u of Finite b \<Rightarrow> Finite 0 | _ \<Rightarrow> NaN)"
    by (simp add: np_multiply_commute [of fp "np_linalg_norm fp u"] np_multiply_zero)
next
  fix r
  assume z: "np_linalg_norm fp u = Finite 0 \<or> np_linalg_norm fp v = Finite 0"
  let ?den = "np_multiply fp (np_linalg_norm fp u) (np_linalg_norm fp v)"
  from z have "?den = Finite 0 \<or> ?den = NaN"
  proof
    assume "np_linalg_norm fp u = Finite 0"
    then show ?thesis by (simp add: np_multiply_zero split: npfloat.splits)
  next
    assume "np_linalg_norm fp v = Finite 0"
    then show ?thesis
      by (simp add: np_multiply_commute [of fp "np_linalg_norm fp u"] np_multiply_zero
          split: npfloat.splits)
  qed
  from divide_by_zero_not_finite [OF this]
  show "similarity w u v \<noteq> Inr (Finite r)"
    by (simp add: similarity_numpy [OF assms])
qed

theorem similarity_zero_norm_witness:
  "np_linalg_norm binary64 [0, 0] = Finite 0
   \<and> np_multiply binary64 (np_linalg_norm binary64 [0, 0]) (np_linalg_norm binary64 [1, 0])
       = Finite 0
   \<and> similarity ready_world [0, 0] [1, 0] = Inr NaN"
proof -
  have n0: "np_linalg_norm binary64 [0, 0] = Finite 0"
    by (simp add: np_linalg_norm_def blas_dot_def fl64_def)
  have n1: "np_linalg_norm binary64 [1, 0] = Finite 1"
    by (simp add: np_linalg_norm_def blas_dot_def binary64_def sequential_dot_values
        fl64_def binary64_round_values)
  have d: "blas_dot binary64 (map2 (*) [0, 0] [1, 0]) = Finite 0"
    by (simp add: blas_dot_def)
  from similarity_zero_norm [OF np_global_ready, of "[0, 0]" "[1, 0]"] n0 n1 d
  show ?thesis by simp
qed

end
